theory Spec2Isabelle
  imports Main "HOL-Library.Char_ord" "HOL-Library.List_Lexorder"
begin

section \<open>Go strings: \<open>strings.Index\<close> and \<open>strings.Split\<close>\<close>

text \<open>
  A Go string is a sequence of bytes, here a \<^typ>\<open>string\<close>. \<open>strings.Index\<close> gives the
  byte offset of the first occurrence of \<open>substr\<close>, or -1; the model returns
  \<^term>\<open>None\<close> for -1.
\<close>

fun HasPrefix :: "string \<Rightarrow> string \<Rightarrow> bool" where
  "HasPrefix s [] = True"
| "HasPrefix [] (p # ps) = False"
| "HasPrefix (c # s) (p # ps) = (c = p \<and> HasPrefix s ps)"

fun Index :: "string \<Rightarrow> string \<Rightarrow> nat option" where
  "Index [] substr = (if substr = [] then Some 0 else None)"
| "Index (c # s) substr =
     (if HasPrefix (c # s) substr then Some 0 else map_option Suc (Index s substr))"

text \<open>
  \<open>strings.Split(s, sep)\<close> cuts \<open>s\<close> at every occurrence of \<open>sep\<close>, found from left to
  right and not overlapping, and returns the pieces between them: one piece more than
  there are occurrences. With an empty separator Go explodes the string into its UTF-8
  sequences; \<open>explode\<close> gives one piece per byte, which is the same on ASCII text. The
  two calls in \<open>parseShardURI\<close> pass the separators \<open>"/"\<close> and \<open>","\<close>.
\<close>

definition explode :: "string \<Rightarrow> string list" where
  "explode s = map (\<lambda>c. [c]) s"

lemma HasPrefix_length: "HasPrefix s p \<Longrightarrow> length p \<le> length s"
  by (induction s p rule: HasPrefix.induct) auto

lemma Index_bound: "Index s sep = Some m \<Longrightarrow> m + length sep \<le> length s"
proof (induction s arbitrary: m)
  case Nil
  then show ?case by (simp split: if_splits)
next
  case (Cons c s)
  show ?case
  proof (cases "HasPrefix (c # s) sep")
    case True
    with Cons.prems have "m = 0" by simp
    with True show ?thesis using HasPrefix_length by fastforce
  next
    case False
    with Cons.prems obtain k where k: "Index s sep = Some k" "m = Suc k" by auto
    from Cons.IH [OF k(1)] k(2) show ?thesis by simp
  qed
qed

function Split :: "string \<Rightarrow> string \<Rightarrow> string list" where
  "Split s sep =
     (if sep = [] then explode s
      else case Index s sep of
             None \<Rightarrow> [s]
           | Some m \<Rightarrow> take m s # Split (drop (m + length sep) s) sep)"
  by pat_completeness auto
termination
proof (relation "measure (\<lambda>(s, sep). length s)")
  show "wf (measure (\<lambda>(s, sep). length s))" by simp
next
  fix s sep :: string and m :: nat
  assume "sep \<noteq> []" and "Index s sep = Some m"
  then have "m + length sep \<le> length s" and "0 < length sep"
    by (auto dest: Index_bound)
  then have "length s - (m + length sep) < length s"
    by arith
  then show "((drop (m + length sep) s, sep), (s, sep)) \<in> measure (\<lambda>(s, sep). length s)"
    by simp
qed

declare Split.simps [simp del]

section \<open>Shard URIs (\<open>internal/cluster/shard.go\<close>)\<close>

text \<open>
  \<open>parseShardURI\<close> takes a shard URI \<open><replica-set>/<host1>:<port1>,<host2>:<port2>,...\<close>
  and returns the replica set name and the hosts. A URI that does not split into exactly
  two pieces at \<open>"/"\<close> gives the empty name and the empty slice.
\<close>

definition parseShardURI :: "string \<Rightarrow> string \<times> string list" where
  "parseShardURI uri =
     (let s = Split uri ''/''
      in if length s = 2 then (s ! 0, Split (s ! 1) '','') else ('''', []))"

text \<open>
  Go values: a pointer is an \<^typ>\<open>'a option\<close> (\<^term>\<open>None\<close> is nil), a value of the
  interface \<open>error\<close> an \<open>error option\<close>, and a call either panics or returns. The errors
  are the driver's, which carry a message, and those of the specification's taxonomy.
\<close>

datatype error =
  QueryError string
| TopologyError
| ElectionError
| DispatchError
| BusyError
| ReplayError

datatype 'a go = Panic | Return 'a

text \<open>
  Modelled from the spec: the type declarations of package \<open>mdbstructs\<close> are missing
  from the sources. A shard document carries the \<open>Host\<close> field the spec's data model
  names, and the answer of \<open>listShards\<close> carries the shard documents.
\<close>

record mdbstructs_Shard =
  Host :: string

record mdbstructs_ListShards =
  Shards :: "mdbstructs_Shard list"

text \<open>
  \<open>NewShard\<close> parses the host string of a shard document and builds the shard's replica
  set from the two results. \<open>NewReplset\<close> and \<open>Config\<close> are not among the sources:
  the constructor is a parameter and the configuration a type variable. The nil
  dereference of \<open>shard.Host\<close> is the outcome \<open>Panic\<close>.
\<close>

record 'rs cluster_Shard =
  shard :: mdbstructs_Shard
  replset :: "'rs option"

definition NewShard ::
  "('cfg \<Rightarrow> string \<Rightarrow> string list \<Rightarrow> 'rs option \<times> error option) \<Rightarrow>
   'cfg \<Rightarrow> mdbstructs_Shard option \<Rightarrow> ('rs cluster_Shard option \<times> error option) go" where
  "NewShard NewReplset config shardp =
     (case shardp of
        None \<Rightarrow> Panic
      | Some sh \<Rightarrow>
          (let (replset, addrs) = parseShardURI (Host sh);
               (rs, err) = NewReplset config replset addrs
           in if err \<noteq> None then Return (None, err)
              else Return (Some \<lparr>shard = sh, replset = rs\<rparr>, None)))"

section \<open>Shard discovery (\<open>internal/cluster/shard.go\<close>)\<close>

text \<open>
  The database driver (\<open>mgo\<close>) is an external library. A session is taken as a
  parameter: what the server answers to a command run on it, and what a query over a
  collection yields (the decoded documents and the error the cursor closes with).
  \<open>Run\<close> decodes the answer into the value behind the result pointer and returns the
  command's error. \<open>All\<close> stores the decoded documents through the result pointer by
  reslicing the caller's slice, so the slice it leaves is nil only when the caller's
  slice was nil and no document came. It is \<open>All_docs\<close> here, \<open>All\<close> being the name of
  HOL's universal quantifier.
\<close>

type_synonym bson_D = "(string \<times> string) list"

datatype 'a slice = nil_slice | Slice "'a list"

record mgo_Session =
  run_reply :: "bson_D \<Rightarrow> mdbstructs_ListShards \<Rightarrow> mdbstructs_ListShards \<times> error option"
  find_reply :: "string \<Rightarrow> string \<Rightarrow> bson_D option \<Rightarrow> mdbstructs_Shard list \<times> error option"

record mgo_Database =
  db_session :: mgo_Session
  db_name :: string

record mgo_Collection =
  c_database :: mgo_Database
  c_name :: string

record mgo_Query =
  q_collection :: mgo_Collection
  q_filter :: "bson_D option"

definition Run ::
  "mgo_Session \<Rightarrow> bson_D \<Rightarrow> mdbstructs_ListShards \<Rightarrow> mdbstructs_ListShards \<times> error option" where
  "Run session cmd result = run_reply session cmd result"

definition DB :: "mgo_Session \<Rightarrow> string \<Rightarrow> mgo_Database" where
  "DB session name = \<lparr>db_session = session, db_name = name\<rparr>"

definition C :: "mgo_Database \<Rightarrow> string \<Rightarrow> mgo_Collection" where
  "C db name = \<lparr>c_database = db, c_name = name\<rparr>"

definition Find :: "mgo_Collection \<Rightarrow> bson_D option \<Rightarrow> mgo_Query" where
  "Find c query = \<lparr>q_collection = c, q_filter = query\<rparr>"

fun reslice :: "'a slice \<Rightarrow> 'a list \<Rightarrow> 'a slice" where
  "reslice nil_slice [] = nil_slice"
| "reslice nil_slice (d # ds) = Slice (d # ds)"
| "reslice (Slice old) ds = Slice ds"

definition All_docs ::
  "mgo_Query \<Rightarrow> mdbstructs_Shard slice \<Rightarrow> mdbstructs_Shard slice \<times> error option" where
  "All_docs q result =
     (let c = q_collection q; db = c_database c;
          (docs, err) = find_reply (db_session db) (db_name db) (c_name c) (q_filter q)
      in (reslice result docs, err))"

definition configDB :: string where
  "configDB = ''config''"

text \<open>
  \<open>GetListShards\<close> returns the shards of a sharded cluster from the \<open>listShards\<close> server
  command: the address of its local \<open>listShards\<close> value, and the error of \<open>Run\<close>.
\<close>

definition GetListShards :: "mgo_Session \<Rightarrow> mdbstructs_ListShards option \<times> error option" where
  "GetListShards session =
     (let listShards = \<lparr>Shards = []\<rparr>;
          (listShards', err) = Run session [(''listShards'', ''1'')] listShards
      in (Some listShards', err))"

text \<open>
  \<open>GetConfigsvrShards\<close> returns the shards from the \<open>config.shards\<close> collection of a
  config server: its slice, which starts empty and not nil, as \<open>All\<close> leaves it, and
  the error of \<open>All\<close>.
\<close>

definition GetConfigsvrShards :: "mgo_Session \<Rightarrow> mdbstructs_Shard slice \<times> error option" where
  "GetConfigsvrShards session =
     (let shards = Slice [];
          (shards', err) = All_docs (Find (C (DB session configDB) ''shards'') None) shards
      in (shards', err))"

text \<open>\<open>strings.Join\<close>, to write a host list \<open><h1>,<h2>,...\<close>.\<close>

fun Join :: "string list \<Rightarrow> string \<Rightarrow> string" where
  "Join [] sep = []"
| "Join [e] sep = e"
| "Join (e # es) sep = e @ sep @ Join es sep"

section \<open>The coordinator: data model\<close>

text \<open>
  Modelled from the spec: the agent registry, the topology model, the source selector
  and the backup orchestrator are not among the sources; only the test that calls them
  is. The definitions of this and the next three sections follow sections 3 and 4 of the
  specification. An agent is one connected node process, with the identity it reports.
\<close>

datatype NodeType = Standalone | ReplsetPrimary | ReplsetSecondary | Arbiter | ConfigServer | Router

record Agent =
  ID :: string
  NodeType :: NodeType
  NodeName :: string
  ClusterID :: string
  ReplicasetName :: string
  ReplicasetUUID :: string

text \<open>
  Modelled from the spec: the registry's snapshot is the sequence of connected agents,
  and \<open>ByReplicaset\<close> groups it by replica-set name.
\<close>

type_synonym Registry = "Agent list"

definition ByReplicaset :: "Registry \<Rightarrow> string \<Rightarrow> Agent list" where
  "ByReplicaset registry name = filter (\<lambda>a. ReplicasetName a = name) registry"

text \<open>
  Modelled from the spec: a shard of the topology is the shard document with its \<open>Host\<close>
  field parsed into a replica-set name and the host addresses; the topology is the
  sequence of shards of the cluster's shard listing.
\<close>

record TopologyShard =
  Document :: mdbstructs_Shard
  ReplsetName :: string
  ReplsetHosts :: "string list"

record Topology =
  TopologyShards :: "TopologyShard list"

definition resolveShard :: "mdbstructs_Shard \<Rightarrow> TopologyShard" where
  "resolveShard sh =
     (let (name, hosts) = parseShardURI (Host sh)
      in \<lparr>Document = sh, ReplsetName = name, ReplsetHosts = hosts\<rparr>)"

section \<open>The coordinator: topology discovery\<close>

text \<open>
  Modelled from the spec: the topology that is not populated, and the elements of a Go
  slice (a nil slice has none).
\<close>

definition emptyTopology :: Topology where
  "emptyTopology = \<lparr>TopologyShards = []\<rparr>"

fun sliceElems :: "'a slice \<Rightarrow> 'a list" where
  "sliceElems nil_slice = []"
| "sliceElems (Slice xs) = xs"

text \<open>
  Modelled from the spec: \<open>Discover\<close> is missing from the sources. It obtains the shard
  listing with \<open>GetListShards\<close> (the router's command) and, when that fails, with
  \<open>GetConfigsvrShards\<close> (the config server's collection); it fails with a
  \<open>TopologyError\<close> if neither succeeds, and then returns the empty topology, whatever the
  two operations left in their results.
\<close>

definition Discover :: "mgo_Session \<Rightarrow> Topology \<times> error option" where
  "Discover dbClient =
     (case GetListShards dbClient of
        (Some listShards, None) \<Rightarrow>
          (\<lparr>TopologyShards = map resolveShard (Shards listShards)\<rparr>, None)
      | _ \<Rightarrow>
          (case GetConfigsvrShards dbClient of
             (shards, None) \<Rightarrow> (\<lparr>TopologyShards = map resolveShard (sliceElems shards)\<rparr>, None)
           | (shards, Some err) \<Rightarrow> (emptyTopology, Some TopologyError)))"

section \<open>The coordinator: source selection\<close>

text \<open>
  Modelled from the spec: the source selector is missing from the sources. The backup
  source map takes a replica-set name to the one agent selected for it. An agent can
  serve data reads unless its node type is arbiter or router.
\<close>

type_synonym BackupSourceMap = "(string \<times> Agent) list"

definition canServeReads :: "Agent \<Rightarrow> bool" where
  "canServeReads a = (NodeType a \<noteq> Arbiter \<and> NodeType a \<noteq> Router)"

text \<open>
  Modelled from the spec: ties are broken by the lexicographically smallest \<open>NodeName\<close>.
  Go compares strings byte by byte, as the order on \<^typ>\<open>string\<close> does.
\<close>

fun smallestName :: "Agent \<Rightarrow> Agent list \<Rightarrow> Agent" where
  "smallestName best [] = best"
| "smallestName best (a # rest) =
     smallestName (if NodeName a < NodeName best then a else best) rest"

text \<open>
  Modelled from the spec: within a replica set the agents that cannot serve reads are
  excluded; among the remaining candidates a member that is not the primary is
  preferred, and the primary is the fallback when no secondary is connected.
\<close>

definition selectSource :: "Agent list \<Rightarrow> Agent option" where
  "selectSource members =
     (let candidates = filter canServeReads members;
          secondaries = filter (\<lambda>a. NodeType a \<noteq> ReplsetPrimary) candidates
      in case secondaries of
           s # rest \<Rightarrow> Some (smallestName s rest)
         | [] \<Rightarrow> (case candidates of
                    [] \<Rightarrow> None
                  | p # rest \<Rightarrow> Some (smallestName p rest)))"

text \<open>
  Modelled from the spec: \<open>SelectSources\<close> gives one entry per replica set present in
  the topology. A replica set with no eligible connected agent is omitted from the map
  and returned in the list of uncovered replica sets, the partial-coverage warning.
\<close>

fun selectEach :: "Registry \<Rightarrow> string list \<Rightarrow> BackupSourceMap \<times> string list" where
  "selectEach registry [] = ([], [])"
| "selectEach registry (rs # rest) =
     (let (chosen, uncovered) = selectEach registry rest
      in case selectSource (ByReplicaset registry rs) of
           None \<Rightarrow> (chosen, rs # uncovered)
         | Some a \<Rightarrow> ((rs, a) # chosen, uncovered))"

definition SelectSources :: "Topology \<Rightarrow> Registry \<Rightarrow> BackupSourceMap \<times> string list" where
  "SelectSources topology registry =
     selectEach registry (remdups (map ReplsetName (TopologyShards topology)))"

section \<open>The coordinator: backup orchestrator\<close>

text \<open>
  Modelled from the spec: the orchestrator is missing from the sources. Its state
  machine has the states of section 4.4; the orchestrator keeps the requests of the
  backups in flight (a request is discarded when its backup completes or fails), the
  sources elected for the current backup, the replica sets whose completion signal is
  outstanding and those whose result is marked failed.
\<close>

datatype BackupType = Logical | Physical

datatype DestinationType = File | ObjectStore

record BackupRequest =
  BackupType :: BackupType
  DestinationType :: DestinationType
  DestinationName :: string
  DestinationDir :: string
  CompressionType :: string
  Cypher :: "string option"
  OplogStartTime :: int

datatype State = Idle | Electing | Dispatching | Running | OplogOnly | Stopping | Finished | Errored

record Orchestrator =
  state :: State
  inFlight :: "BackupRequest list"
  sources :: BackupSourceMap
  outstanding :: "string list"
  failed :: "string list"

definition idleOrchestrator :: Orchestrator where
  "idleOrchestrator =
     \<lparr>state = Idle, inFlight = [], sources = [], outstanding = [], failed = []\<rparr>"

text \<open>
  Modelled from the spec: \<open>StartBackup\<close> accepts a request only in \<open>Idle\<close> and then starts
  the election; in any other state it fails at once with a \<open>BusyError\<close> and changes
  nothing.
\<close>

definition StartBackup :: "BackupRequest \<Rightarrow> Orchestrator \<Rightarrow> error option \<times> Orchestrator" where
  "StartBackup request orch =
     (if state orch \<noteq> Idle then (Some BusyError, orch)
      else (None, orch\<lparr>state := Electing, inFlight := request # inFlight orch\<rparr>))"

text \<open>
  Modelled from the spec: the transitions after a request is accepted. \<open>Electing\<close> runs
  the source selector and goes to \<open>Dispatching\<close> on a non-empty map, to \<open>Errored\<close> on an
  empty one. \<open>Dispatching\<close> sends the start command to every selected agent; a replica
  set whose agent does not accept is marked failed, the others are outstanding, and the
  backup is \<open>Running\<close>. A completion signal takes its replica set off the outstanding ones
  (and marks it failed when it reports a failure); with none outstanding the dump phase
  is over and the state is \<open>OplogOnly\<close>. \<open>StopOplogTail\<close> leads to \<open>Stopping\<close>, the
  last acknowledgement to \<open>Finished\<close>. \<open>Errored\<close> is reachable from every non-terminal
  state, and a reset leads from a terminal state to \<open>Idle\<close>.
\<close>

definition elect :: "Topology \<Rightarrow> Registry \<Rightarrow> Orchestrator \<Rightarrow> Orchestrator" where
  "elect topology registry orch =
     (if state orch \<noteq> Electing then orch
      else case fst (SelectSources topology registry) of
             [] \<Rightarrow> orch\<lparr>state := Errored, inFlight := []\<rparr>
           | src # others \<Rightarrow> orch\<lparr>state := Dispatching, sources := src # others\<rparr>)"

definition dispatch :: "(Agent \<Rightarrow> bool) \<Rightarrow> Orchestrator \<Rightarrow> Orchestrator" where
  "dispatch accepts orch =
     (if state orch \<noteq> Dispatching then orch
      else orch\<lparr>state := Running,
                outstanding := map fst (filter (\<lambda>(rs, a). accepts a) (sources orch)),
                failed := map fst (filter (\<lambda>(rs, a). \<not> accepts a) (sources orch))\<rparr>)"

definition completionSignal :: "string \<Rightarrow> bool \<Rightarrow> Orchestrator \<Rightarrow> Orchestrator" where
  "completionSignal rs ok orch =
     (if state orch \<noteq> Running \<or> rs \<notin> set (outstanding orch) then orch
      else orch\<lparr>outstanding := removeAll rs (outstanding orch),
                failed := (if ok then failed orch else rs # failed orch)\<rparr>)"

definition dumpFinished :: "Orchestrator \<Rightarrow> Orchestrator" where
  "dumpFinished orch =
     (if state orch = Running \<and> outstanding orch = [] then orch\<lparr>state := OplogOnly\<rparr>
      else orch)"

definition StopOplogTail :: "Orchestrator \<Rightarrow> Orchestrator" where
  "StopOplogTail orch = (if state orch = OplogOnly then orch\<lparr>state := Stopping\<rparr> else orch)"

definition oplogFinished :: "Orchestrator \<Rightarrow> Orchestrator" where
  "oplogFinished orch =
     (if state orch = Stopping then orch\<lparr>state := Finished, inFlight := []\<rparr> else orch)"

definition fail :: "Orchestrator \<Rightarrow> Orchestrator" where
  "fail orch =
     (if state orch = Finished \<or> state orch = Errored then orch
      else orch\<lparr>state := Errored, inFlight := []\<rparr>)"

definition reset :: "Orchestrator \<Rightarrow> Orchestrator" where
  "reset orch =
     (if state orch = Finished \<or> state orch = Errored then idleOrchestrator else orch)"

text \<open>
  Modelled from the spec: what can happen to the orchestrator, one event at a time (its
  transitions run under one mutual-exclusion domain), and the orchestrator after a
  sequence of events.
\<close>

datatype event =
  RequestBackup BackupRequest
| Election Topology Registry
| Dispatched "Agent \<Rightarrow> bool"
| Completion string bool
| DumpDone
| StopTail
| TailStopped
| Failure
| Reset

fun step :: "Orchestrator \<Rightarrow> event \<Rightarrow> Orchestrator" where
  "step orch (RequestBackup request) = snd (StartBackup request orch)"
| "step orch (Election topology registry) = elect topology registry orch"
| "step orch (Dispatched accepts) = dispatch accepts orch"
| "step orch (Completion rs ok) = completionSignal rs ok orch"
| "step orch DumpDone = dumpFinished orch"
| "step orch StopTail = StopOplogTail orch"
| "step orch TailStopped = oplogFinished orch"
| "step orch Failure = fail orch"
| "step orch Reset = reset orch"

definition run :: "event list \<Rightarrow> Orchestrator" where
  "run events = foldl step idleOrchestrator events"

text \<open>
  The orchestrator's invariant: a backup is in flight exactly in the states between the
  acceptance of a request and a terminal state, and then it is the only one.
\<close>

definition oneAtATime :: "Orchestrator \<Rightarrow> bool" where
  "oneAtATime orch =
     (if state orch \<in> {Idle, Finished, Errored} then inFlight orch = []
      else length (inFlight orch) = 1)"

section \<open>Examples\<close>

text \<open>
  A session on which both requests fail after the driver has decoded part of an answer,
  and a session on a config server, which has no \<open>listShards\<close> command; a registry after the replica sets of the integration test (\<open>tests/general_test.go\<close>:
  agents named by their address, two shards), with an arbiter in each replica set and a
  router; a backup request as the test submits it, and the events that take the
  orchestrator to \<open>Running\<close>.
\<close>

definition failingSession :: mgo_Session where
  "failingSession =
     \<lparr>run_reply = \<lambda>cmd res.
        (res\<lparr>Shards := [\<lparr>Host = ''rs1/h1:1''\<rparr>]\<rparr>, Some (QueryError ''no such command'')),
      find_reply = \<lambda>db c q.
        ([\<lparr>Host = ''rs2/h2:2''\<rparr>], Some (QueryError ''not authorized''))\<rparr>"

definition configsvrSession :: mgo_Session where
  "configsvrSession =
     \<lparr>run_reply = \<lambda>cmd res. (res, Some (QueryError ''no such command'')),
      find_reply = \<lambda>db c q.
        (if db = ''config'' \<and> c = ''shards''
         then ([\<lparr>Host = ''rs1/h1:1,h2:2''\<rparr>, \<lparr>Host = ''rs2/h3:3''\<rparr>], None)
         else ([], Some (QueryError ''ns not found'')))\<rparr>"

definition agent :: "string \<Rightarrow> NodeType \<Rightarrow> string \<Rightarrow> Agent" where
  "agent name type rs =
     \<lparr>ID = name, NodeType = type, NodeName = name, ClusterID = ''5b9e5548fcaf061d1ed3830d'',
      ReplicasetName = rs, ReplicasetUUID = rs\<rparr>"

definition testRegistry :: Registry where
  "testRegistry =
     [agent ''127.0.0.1:17001'' ReplsetPrimary ''rs1'',
      agent ''127.0.0.1:17003'' ReplsetSecondary ''rs1'',
      agent ''127.0.0.1:17002'' ReplsetSecondary ''rs1'',
      agent ''127.0.0.1:17000'' Arbiter ''rs1'',
      agent ''127.0.0.1:17004'' ReplsetPrimary ''rs2'',
      agent ''127.0.0.1:17005'' Arbiter ''rs2'',
      agent ''127.0.0.1:27017'' Router '''']"

definition testTopology :: Topology where
  "testTopology =
     \<lparr>TopologyShards =
        [resolveShard \<lparr>Host = ''rs1/127.0.0.1:17001,127.0.0.1:17002''\<rparr>,
         resolveShard \<lparr>Host = ''rs2/127.0.0.1:17004''\<rparr>]\<rparr>"

definition testRequest :: "int \<Rightarrow> BackupRequest" where
  "testRequest start =
     \<lparr>BackupType = Logical, DestinationType = File, DestinationName = ''test'',
      DestinationDir = ''/tmp/dump_test'', CompressionType = ''none'', Cypher = None,
      OplogStartTime = start\<rparr>"

definition testEvents :: "event list" where
  "testEvents =
     [RequestBackup (testRequest 1), Election testTopology testRegistry, Dispatched (\<lambda>a. True)]"

section \<open>Splitting at a one-byte separator\<close>

lemma Index_absent: "c \<notin> set s \<Longrightarrow> Index s [c] = None"
  by (induction s) auto

lemma Index_first: "c \<notin> set xs \<Longrightarrow> Index (xs @ c # ys) [c] = Some (length xs)"
  by (induction xs) auto

lemma Split_absent: "c \<notin> set s \<Longrightarrow> Split s [c] = [s]"
  by (simp add: Split.simps Index_absent)

lemma Split_first: "c \<notin> set xs \<Longrightarrow> Split (xs @ c # ys) [c] = xs # Split ys [c]"
  by (subst Split.simps) (simp add: Index_first)

lemma length_Split: "length (Split s [c]) = Suc (count_list s c)"
proof (induction s rule: length_induct)
  case (1 s)
  show ?case
  proof (cases "c \<in> set s")
    case False
    then show ?thesis by (simp add: Split_absent)
  next
    case True
    then obtain xs ys where s: "s = xs @ c # ys" and xs: "c \<notin> set xs"
      by (auto dest: split_list_first)
    from s have "length ys < length s" by simp
    with 1 have "length (Split ys [c]) = Suc (count_list ys c)" by blast
    with s xs show ?thesis by (simp add: Split_first)
  qed
qed

lemma Split_Join:
  "hosts \<noteq> [] \<Longrightarrow> \<forall>h\<in>set hosts. c \<notin> set h \<Longrightarrow> Split (Join hosts [c]) [c] = hosts"
proof (induction hosts "[c]" rule: Join.induct)
  case 1
  then show ?case by simp
next
  case (2 e)
  then show ?case by (simp add: Split_absent)
next
  case (3 e v va)
  then show ?case by (simp add: Split_first)
qed

lemma Join_no_sep:
  "\<forall>h\<in>set hosts. d \<notin> set h \<Longrightarrow> d \<noteq> c \<Longrightarrow> d \<notin> set (Join hosts [c])"
  by (induction hosts "[c]" rule: Join.induct) auto

lemma parseShardURI_two:
  "CHR ''/'' \<notin> set name \<Longrightarrow> CHR ''/'' \<notin> set suffix \<Longrightarrow>
     parseShardURI (name @ ''/'' @ suffix) = (name, Split suffix '','')"
  by (simp add: parseShardURI_def Split_first Split_absent)

lemma parseShardURI_other:
  "count_list uri (CHR ''/'') \<noteq> 1 \<Longrightarrow> parseShardURI uri = ('''', [])"
  by (simp add: parseShardURI_def length_Split)

lemma one_slash_decomp:
  assumes "count_list uri c = 1"
  shows "\<exists>name suffix. uri = name @ c # suffix \<and> c \<notin> set name \<and> c \<notin> set suffix"
proof -
  from assms have "c \<in> set uri" by (metis count_list_0_iff zero_neq_one)
  then obtain xs ys where s: "uri = xs @ c # ys" and xs: "c \<notin> set xs"
    by (auto dest: split_list_first)
  with assms have "count_list ys c = 0" by simp
  then have "c \<notin> set ys" by (simp add: count_list_0_iff)
  with s xs show ?thesis by blast
qed

lemma parseShardURI_one_slash:
  assumes "count_list uri (CHR ''/'') = 1"
  shows "\<exists>name suffix. uri = name @ ''/'' @ suffix \<and> CHR ''/'' \<notin> set name \<and>
         CHR ''/'' \<notin> set suffix \<and> parseShardURI uri = (name, Split suffix '','')"
proof -
  from assms obtain name suffix where d: "uri = name @ ''/'' @ suffix"
      and n: "CHR ''/'' \<notin> set name" and s: "CHR ''/'' \<notin> set suffix"
    using one_slash_decomp [of uri "CHR ''/''"] by auto
  have "parseShardURI (name @ ''/'' @ suffix) = (name, Split suffix '','')"
    using n s by (rule parseShardURI_two)
  with d n s show ?thesis
    by blast
qed

lemma parseShardURI_joined:
  assumes a: "CHR ''/'' \<notin> set name \<and> hosts \<noteq> [] \<and>
      (\<forall>h\<in>set hosts. CHR ''/'' \<notin> set h \<and> CHR '','' \<notin> set h)"
  shows "parseShardURI (name @ ''/'' @ Join hosts '','') = (name, hosts)"
proof -
  from a have "CHR ''/'' \<notin> set (Join hosts '','')"
    by (intro Join_no_sep) auto
  with a have "parseShardURI (name @ ''/'' @ Join hosts '','') = (name, Split (Join hosts '','') '','')"
    by (intro parseShardURI_two) auto
  moreover from a have "Split (Join hosts '','') '','' = hosts"
    by (intro Split_Join) auto
  ultimately show ?thesis
    by simp
qed

lemma parseShardURI_no_slash: "CHR ''/'' \<notin> set uri \<Longrightarrow> parseShardURI uri = ('''', [])"
  by (simp add: parseShardURI_def Split_absent)

section \<open>Claims about \<open>parseShardURI\<close>\<close>

text \<open>
  C1. A string with exactly one \<open>/\<close> is \<open>name/suffix\<close>, and \<open>parseShardURI\<close> returns
  \<open>name\<close> with the pieces of \<open>suffix\<close> between its commas; when the suffix is the hosts
  \<open>h1,h2,...\<close> joined by commas (one host at least, no comma and no slash inside a host),
  the pieces are these hosts, in order. \<open>"rs1/h1:1,h2:2"\<close> gives \<open>"rs1"\<close> and
  \<open>["h1:1", "h2:2"]\<close>. A string with no \<open>/\<close>, such as \<open>"standalone-no-slash"\<close>, gives
  the empty name and no host.
\<close>

theorem parseShardURI_name_hosts:
  "(count_list uri (CHR ''/'') = 1 \<longrightarrow>
      (\<exists>name suffix. uri = name @ ''/'' @ suffix \<and> CHR ''/'' \<notin> set name \<and>
         CHR ''/'' \<notin> set suffix \<and> parseShardURI uri = (name, Split suffix '',''))) \<and>
   (CHR ''/'' \<notin> set name \<and> hosts \<noteq> [] \<and>
      (\<forall>h\<in>set hosts. CHR ''/'' \<notin> set h \<and> CHR '','' \<notin> set h) \<longrightarrow>
      parseShardURI (name @ ''/'' @ Join hosts '','') = (name, hosts)) \<and>
   parseShardURI ''rs1/h1:1,h2:2'' = (''rs1'', [''h1:1'', ''h2:2'']) \<and>
   (CHR ''/'' \<notin> set uri' \<longrightarrow> parseShardURI uri' = ('''', [])) \<and>
   parseShardURI ''standalone-no-slash'' = ('''', [])"
proof (intro conjI impI)
  assume "count_list uri (CHR ''/'') = 1"
  then show "\<exists>name suffix. uri = name @ ''/'' @ suffix \<and> CHR ''/'' \<notin> set name \<and>
         CHR ''/'' \<notin> set suffix \<and> parseShardURI uri = (name, Split suffix '','')"
    by (rule parseShardURI_one_slash)
next
  assume "CHR ''/'' \<notin> set name \<and> hosts \<noteq> [] \<and>
      (\<forall>h\<in>set hosts. CHR ''/'' \<notin> set h \<and> CHR '','' \<notin> set h)"
  then show "parseShardURI (name @ ''/'' @ Join hosts '','') = (name, hosts)"
    by (rule parseShardURI_joined)
next
  show "parseShardURI ''rs1/h1:1,h2:2'' = (''rs1'', [''h1:1'', ''h2:2''])"
    by (simp add: parseShardURI_def Split.simps)
next
  assume "CHR ''/'' \<notin> set uri'"
  then show "parseShardURI uri' = ('''', [])"
    by (rule parseShardURI_no_slash)
next
  show "parseShardURI ''standalone-no-slash'' = ('''', [])"
    by (simp add: parseShardURI_def Split.simps)
qed

theorem parseShardURI_name_hosts_witness:
  "count_list ''rs1/h1:1,h2:2'' (CHR ''/'') = 1 \<and>
   (\<exists>name suffix. ''rs1/h1:1,h2:2'' = name @ ''/'' @ suffix \<and> CHR ''/'' \<notin> set name \<and>
      CHR ''/'' \<notin> set suffix \<and> parseShardURI ''rs1/h1:1,h2:2'' = (name, Split suffix '','')) \<and>
   parseShardURI (''rs1'' @ ''/'' @ Join [''h1:1'', ''h2:2''] '','') = (''rs1'', [''h1:1'', ''h2:2'']) \<and>
   parseShardURI ''localhost:27017'' = ('''', [])"
proof -
  have one: "count_list ''rs1/h1:1,h2:2'' (CHR ''/'') = 1"
    by simp
  have hosts: "CHR ''/'' \<notin> set ''rs1'' \<and> [''h1:1'', ''h2:2''] \<noteq> [] \<and>
      (\<forall>h\<in>set [''h1:1'', ''h2:2'']. CHR ''/'' \<notin> set h \<and> CHR '','' \<notin> set h)"
    by simp
  have none: "CHR ''/'' \<notin> set ''localhost:27017''"
    by simp
  note inst = parseShardURI_name_hosts [where uri = "''rs1/h1:1,h2:2''" and name = "''rs1''"
      and hosts = "[''h1:1'', ''h2:2'']" and uri' = "''localhost:27017''"]
  note c1 = inst [THEN conjunct1, THEN mp, OF one]
  note c2 = inst [THEN conjunct2, THEN conjunct1, THEN mp, OF hosts]
  note c4 = inst [THEN conjunct2, THEN conjunct2, THEN conjunct2, THEN conjunct1, THEN mp, OF none]
  show ?thesis
    by (intro conjI one c1 c2 c4)
qed

lemma NewShard_calls:
  "parseShardURI (Host sh) = (name, addrs) \<Longrightarrow>
   NewShard NewReplset config (Some sh) =
     (case NewReplset config name addrs of
        (rs, None) \<Rightarrow> Return (Some \<lparr>shard = sh, replset = rs\<rparr>, None)
      | (rs, Some e) \<Rightarrow> Return (None, Some e))"
  by (simp add: NewShard_def split: prod.splits option.splits)

text \<open>
  C10. With one \<open>/\<close> and nothing after it, \<open>parseShardURI\<close> returns the name and the one
  host \<open>""\<close> (\<open>"rs1/"\<close> gives \<open>"rs1"\<close> and \<open>[""]\<close>); with two or more \<open>/\<close> it returns the
  empty name and no host, as for a string with no \<open>/\<close> (\<open>"a/b/c"\<close>). \<open>NewShard\<close> hands
  exactly these values to \<open>NewReplset\<close>.
\<close>

theorem parseShardURI_edge_cases:
  "(CHR ''/'' \<notin> set name \<longrightarrow> parseShardURI (name @ ''/'') = (name, [''''])) \<and>
   parseShardURI ''rs1/'' = (''rs1'', ['''']) \<and>
   (2 \<le> count_list uri (CHR ''/'') \<longrightarrow> parseShardURI uri = ('''', [])) \<and>
   parseShardURI ''a/b/c'' = ('''', []) \<and>
   parseShardURI ''a/b/c'' = parseShardURI ''standalone-no-slash'' \<and>
   NewShard NewReplset config (Some \<lparr>Host = ''rs1/''\<rparr>) =
     (case NewReplset config ''rs1'' [''''] of
        (rs, None) \<Rightarrow> Return (Some \<lparr>shard = \<lparr>Host = ''rs1/''\<rparr>, replset = rs\<rparr>, None)
      | (rs, Some e) \<Rightarrow> Return (None, Some e)) \<and>
   NewShard NewReplset config (Some \<lparr>Host = ''a/b/c''\<rparr>) =
     (case NewReplset config '''' [] of
        (rs, None) \<Rightarrow> Return (Some \<lparr>shard = \<lparr>Host = ''a/b/c''\<rparr>, replset = rs\<rparr>, None)
      | (rs, Some e) \<Rightarrow> Return (None, Some e))"
proof (intro conjI impI)
  assume "CHR ''/'' \<notin> set name"
  then have "parseShardURI (name @ ''/'' @ []) = (name, Split [] '','')"
    by (intro parseShardURI_two) auto
  then show "parseShardURI (name @ ''/'') = (name, [''''])"
    by (simp add: Split.simps)
next
  show a: "parseShardURI ''rs1/'' = (''rs1'', [''''])"
    by (simp add: parseShardURI_def Split.simps)
  show b: "parseShardURI ''a/b/c'' = ('''', [])"
    by (simp add: parseShardURI_def Split.simps)
  show "parseShardURI ''a/b/c'' = parseShardURI ''standalone-no-slash''"
    by (simp add: parseShardURI_def Split.simps)
  show "NewShard NewReplset config (Some \<lparr>Host = ''rs1/''\<rparr>) =
     (case NewReplset config ''rs1'' [''''] of
        (rs, None) \<Rightarrow> Return (Some \<lparr>shard = \<lparr>Host = ''rs1/''\<rparr>, replset = rs\<rparr>, None)
      | (rs, Some e) \<Rightarrow> Return (None, Some e))"
    using a by (intro NewShard_calls) simp
  show "NewShard NewReplset config (Some \<lparr>Host = ''a/b/c''\<rparr>) =
     (case NewReplset config '''' [] of
        (rs, None) \<Rightarrow> Return (Some \<lparr>shard = \<lparr>Host = ''a/b/c''\<rparr>, replset = rs\<rparr>, None)
      | (rs, Some e) \<Rightarrow> Return (None, Some e))"
    using b by (intro NewShard_calls) simp
next
  assume "2 \<le> count_list uri (CHR ''/'')"
  then show "parseShardURI uri = ('''', [])"
    by (intro parseShardURI_other) simp
qed

theorem parseShardURI_edge_cases_witness:
  "CHR ''/'' \<notin> set ''shard0'' \<and> parseShardURI (''shard0'' @ ''/'') = (''shard0'', ['''']) \<and>
   2 \<le> count_list ''rs/h1:1/h2:2'' (CHR ''/'') \<and> parseShardURI ''rs/h1:1/h2:2'' = ('''', [])"
proof -
  have name: "CHR ''/'' \<notin> set ''shard0''"
    by simp
  have two: "2 \<le> count_list ''rs/h1:1/h2:2'' (CHR ''/'')"
    by simp
  note inst = parseShardURI_edge_cases [where name = "''shard0''" and uri = "''rs/h1:1/h2:2''"]
  note c1 = inst [THEN conjunct1, THEN mp, OF name]
  note c3 = inst [THEN conjunct2, THEN conjunct2, THEN conjunct1, THEN mp, OF two]
  show ?thesis
    by (intro conjI name two c1 c3)
qed

section \<open>Claims about shard discovery\<close>

lemma GetListShards_eq:
  "GetListShards session =
     (Some (fst (run_reply session [(''listShards'', ''1'')] \<lparr>Shards = []\<rparr>)),
      snd (run_reply session [(''listShards'', ''1'')] \<lparr>Shards = []\<rparr>))"
  by (simp add: GetListShards_def Run_def split: prod.splits)

lemma GetConfigsvrShards_eq:
  "GetConfigsvrShards session =
     (Slice (fst (find_reply session ''config'' ''shards'' None)),
      snd (find_reply session ''config'' ''shards'' None))"
  by (simp add: GetConfigsvrShards_def All_docs_def Find_def C_def DB_def configDB_def
      split: prod.splits)

text \<open>
  C2. \<open>GetListShards\<close> runs the one command \<open>listShards\<close> and returns what the driver
  decoded with the command's error; \<open>GetConfigsvrShards\<close> reads the collection \<open>shards\<close>
  of the database \<open>config\<close> with no filter and returns the decoded shard documents with
  the query's error. Neither depends on what the session answers to the other's request,
  so one cannot stand in for the other: on a session that answers \<open>listShards\<close> and
  refuses the collection read the first succeeds and the second fails, and the other way
  round on a session that refuses \<open>listShards\<close>.
\<close>

theorem discovery_operations_distinct:
  "GetListShards session =
     (Some (fst (run_reply session [(''listShards'', ''1'')] \<lparr>Shards = []\<rparr>)),
      snd (run_reply session [(''listShards'', ''1'')] \<lparr>Shards = []\<rparr>)) \<and>
   GetConfigsvrShards session =
     (Slice (fst (find_reply session ''config'' ''shards'' None)),
      snd (find_reply session ''config'' ''shards'' None)) \<and>
   GetListShards (session\<lparr>find_reply := f\<rparr>) = GetListShards session \<and>
   GetConfigsvrShards (session\<lparr>run_reply := g\<rparr>) = GetConfigsvrShards session \<and>
   GetListShards \<lparr>run_reply = \<lambda>cmd res. (res\<lparr>Shards := ds\<rparr>, None),
                  find_reply = \<lambda>db c q. ([], Some e)\<rparr> = (Some \<lparr>Shards = ds\<rparr>, None) \<and>
   GetConfigsvrShards \<lparr>run_reply = \<lambda>cmd res. (res\<lparr>Shards := ds\<rparr>, None),
                       find_reply = \<lambda>db c q. ([], Some e)\<rparr> = (Slice [], Some e) \<and>
   GetListShards \<lparr>run_reply = \<lambda>cmd res. (res, Some e),
                  find_reply = \<lambda>db c q. (ds, None)\<rparr> = (Some \<lparr>Shards = []\<rparr>, Some e) \<and>
   GetConfigsvrShards \<lparr>run_reply = \<lambda>cmd res. (res, Some e),
                       find_reply = \<lambda>db c q. (ds, None)\<rparr> = (Slice ds, None)"
  by (simp add: GetListShards_eq GetConfigsvrShards_eq)

text \<open>
  C9. The pointer \<open>GetListShards\<close> returns is never nil and the slice
  \<open>GetConfigsvrShards\<close> returns is never nil, also when the command fails: on a session
  whose every request fails with \<open>e\<close>, the first returns the address of an empty listing
  and the second the empty slice, each with the error \<open>e\<close>. Only the error tells failure
  from success.
\<close>

theorem discovery_results_never_nil:
  "fst (GetListShards session) \<noteq> None \<and>
   fst (GetConfigsvrShards session) \<noteq> nil_slice \<and>
   GetListShards \<lparr>run_reply = \<lambda>cmd res. (res, Some e),
                  find_reply = \<lambda>db c q. ([], Some e)\<rparr> = (Some \<lparr>Shards = []\<rparr>, Some e) \<and>
   GetConfigsvrShards \<lparr>run_reply = \<lambda>cmd res. (res, Some e),
                       find_reply = \<lambda>db c q. ([], Some e)\<rparr> = (Slice [], Some e)"
  by (simp add: GetListShards_eq GetConfigsvrShards_eq)

section \<open>Claim about topology discovery\<close>

lemma Discover_cases:
  "Discover c =
     (if snd (GetListShards c) = None
      then (\<lparr>TopologyShards = map resolveShard (Shards (the (fst (GetListShards c))))\<rparr>, None)
      else if snd (GetConfigsvrShards c) = None
      then (\<lparr>TopologyShards = map resolveShard (sliceElems (fst (GetConfigsvrShards c)))\<rparr>, None)
      else (emptyTopology, Some TopologyError))"
  by (auto simp: Discover_def GetListShards_eq split: prod.splits option.splits)

text \<open>
  C3. \<open>Discover\<close> fails exactly when neither discovery operation succeeds; it then
  returns the \<open>TopologyError\<close> with the empty topology, nothing of what the two
  operations returned with their errors. When it succeeds the topology holds the shards
  of the listing that succeeded.
\<close>

theorem Discover_all_or_nothing:
  "(snd (Discover c) \<noteq> None \<longleftrightarrow>
      snd (GetListShards c) \<noteq> None \<and> snd (GetConfigsvrShards c) \<noteq> None) \<and>
   (snd (Discover c) \<noteq> None \<longrightarrow> Discover c = (emptyTopology, Some TopologyError)) \<and>
   (snd (Discover c) = None \<longrightarrow>
      TopologyShards (fst (Discover c)) =
        (if snd (GetListShards c) = None
         then map resolveShard (Shards (the (fst (GetListShards c))))
         else map resolveShard (sliceElems (fst (GetConfigsvrShards c)))))"
  by (simp add: Discover_cases)

theorem Discover_all_or_nothing_witness:
  "snd (Discover failingSession) \<noteq> None \<and>
   fst (GetListShards failingSession) = Some \<lparr>Shards = [\<lparr>Host = ''rs1/h1:1''\<rparr>]\<rparr> \<and>
   fst (GetConfigsvrShards failingSession) = Slice [\<lparr>Host = ''rs2/h2:2''\<rparr>] \<and>
   Discover failingSession = (emptyTopology, Some TopologyError) \<and>
   snd (Discover configsvrSession) = None \<and>
   TopologyShards (fst (Discover configsvrSession)) =
     [\<lparr>Document = \<lparr>Host = ''rs1/h1:1,h2:2''\<rparr>, ReplsetName = ''rs1'',
       ReplsetHosts = [''h1:1'', ''h2:2'']\<rparr>,
      \<lparr>Document = \<lparr>Host = ''rs2/h3:3''\<rparr>, ReplsetName = ''rs2'', ReplsetHosts = [''h3:3'']\<rparr>]"
proof -
  have fails: "snd (Discover failingSession) \<noteq> None"
    by (simp add: Discover_cases failingSession_def GetListShards_eq GetConfigsvrShards_eq)
  have partial: "fst (GetListShards failingSession) = Some \<lparr>Shards = [\<lparr>Host = ''rs1/h1:1''\<rparr>]\<rparr>"
    "fst (GetConfigsvrShards failingSession) = Slice [\<lparr>Host = ''rs2/h2:2''\<rparr>]"
    by (simp_all add: failingSession_def GetListShards_eq GetConfigsvrShards_eq)
  have works: "snd (Discover configsvrSession) = None"
    by (simp add: Discover_cases configsvrSession_def GetListShards_eq GetConfigsvrShards_eq)
  have first: "snd (GetListShards configsvrSession) \<noteq> None"
    by (simp add: configsvrSession_def GetListShards_eq)
  have docs: "map resolveShard (sliceElems (fst (GetConfigsvrShards configsvrSession))) =
     [\<lparr>Document = \<lparr>Host = ''rs1/h1:1,h2:2''\<rparr>, ReplsetName = ''rs1'',
       ReplsetHosts = [''h1:1'', ''h2:2'']\<rparr>,
      \<lparr>Document = \<lparr>Host = ''rs2/h3:3''\<rparr>, ReplsetName = ''rs2'', ReplsetHosts = [''h3:3'']\<rparr>]"
    by (simp add: configsvrSession_def GetConfigsvrShards_eq resolveShard_def
        parseShardURI_def Split.simps)
  note c2 = Discover_all_or_nothing [of failingSession, THEN conjunct2, THEN conjunct1,
      THEN mp, OF fails]
  note c3 = Discover_all_or_nothing [of configsvrSession, THEN conjunct2, THEN conjunct2,
      THEN mp, OF works]
  from c3 first docs
  have topo: "TopologyShards (fst (Discover configsvrSession)) =
     [\<lparr>Document = \<lparr>Host = ''rs1/h1:1,h2:2''\<rparr>, ReplsetName = ''rs1'',
       ReplsetHosts = [''h1:1'', ''h2:2'']\<rparr>,
      \<lparr>Document = \<lparr>Host = ''rs2/h3:3''\<rparr>, ReplsetName = ''rs2'', ReplsetHosts = [''h3:3'']\<rparr>]"
    by simp
  show ?thesis
    by (intro conjI fails partial c2 works topo)
qed

section \<open>Claim about source selection\<close>

lemma smallestName_in: "smallestName b rest \<in> set (b # rest)"
  by (induction rest arbitrary: b) auto

lemma smallestName_le: "x \<in> set (b # rest) \<Longrightarrow> NodeName (smallestName b rest) \<le> NodeName x"
proof (induction rest arbitrary: b x)
  case Nil
  then show ?case by simp
next
  case (Cons a rest)
  let ?b = "if NodeName a < NodeName b then a else b"
  have le: "NodeName (smallestName ?b rest) \<le> NodeName ?b"
    using Cons.IH [of ?b ?b] by simp
  from Cons.prems consider "x = b" | "x = a" | "x \<in> set rest" by auto
  then show ?case
  proof cases
    case 1
    with le show ?thesis by (auto split: if_splits)
  next
    case 2
    with le show ?thesis by (auto split: if_splits)
  next
    case 3
    then show ?thesis using Cons.IH [of x ?b] by simp
  qed
qed

lemma selectSource_sound:
  assumes "selectSource members = Some a"
  shows "a \<in> set members \<and> canServeReads a \<and>
     (NodeType a = ReplsetPrimary \<longrightarrow>
        (\<forall>b\<in>set members. canServeReads b \<longrightarrow> NodeType b = ReplsetPrimary)) \<and>
     (\<forall>b\<in>set members. canServeReads b \<and>
        (NodeType b \<noteq> ReplsetPrimary \<or> NodeType a = ReplsetPrimary) \<longrightarrow> NodeName a \<le> NodeName b)"
proof -
  let ?cs = "filter canServeReads members"
  let ?ss = "filter (\<lambda>a. NodeType a \<noteq> ReplsetPrimary) ?cs"
  show ?thesis
  proof (cases ?ss)
    case (Cons s rest)
    with assms have a: "a = smallestName s rest"
      by (simp add: selectSource_def)
    then have "a \<in> set ?ss" using smallestName_in [of s rest] Cons by simp
    moreover have "\<forall>b\<in>set ?ss. NodeName a \<le> NodeName b"
      using smallestName_le [of _ s rest] a Cons by simp
    ultimately show ?thesis by auto
  next
    case Nil
    show ?thesis
    proof (cases ?cs)
      case Nil
      with \<open>?ss = []\<close> assms show ?thesis by (simp add: selectSource_def)
    next
      case (Cons p rest)
      with \<open>?ss = []\<close> assms have a: "a = smallestName p rest"
        by (simp add: selectSource_def)
      then have ain: "a \<in> set ?cs" using smallestName_in [of p rest] Cons by simp
      have le: "\<forall>b\<in>set ?cs. NodeName a \<le> NodeName b"
        using smallestName_le [of _ p rest] a Cons by simp
      have prim: "\<forall>b\<in>set ?cs. NodeType b = ReplsetPrimary"
        using \<open>?ss = []\<close> by (auto simp: filter_empty_conv)
      from ain le prim show ?thesis by auto
    qed
  qed
qed

lemma selectEach_sound:
  "(rs, a) \<in> set (fst (selectEach registry names)) \<Longrightarrow>
     rs \<in> set names \<and> selectSource (ByReplicaset registry rs) = Some a"
  by (induction names) (auto split: prod.splits option.splits)

lemma selectEach_distinct:
  "distinct names \<Longrightarrow> distinct (map fst (fst (selectEach registry names)))"
proof (induction names)
  case Nil
  then show ?case by simp
next
  case (Cons rs rest)
  have "rs \<notin> fst ` set (fst (selectEach registry rest))"
  proof
    assume "rs \<in> fst ` set (fst (selectEach registry rest))"
    then obtain a where "(rs, a) \<in> set (fst (selectEach registry rest))" by auto
    then have "rs \<in> set rest" by (auto dest: selectEach_sound)
    with Cons.prems show False by simp
  qed
  with Cons show ?case by (auto split: prod.splits option.splits)
qed

lemma selectSource_registry:
  assumes "selectSource (ByReplicaset registry rs) = Some a"
  shows "NodeType a \<noteq> Arbiter \<and> NodeType a \<noteq> Router \<and>
     a \<in> set registry \<and> ReplicasetName a = rs \<and>
     (NodeType a = ReplsetPrimary \<longrightarrow>
        (\<forall>b\<in>set registry. ReplicasetName b = rs \<and> NodeType b \<noteq> Arbiter \<and> NodeType b \<noteq> Router \<longrightarrow>
           NodeType b = ReplsetPrimary)) \<and>
     (\<forall>b\<in>set registry. ReplicasetName b = rs \<and> NodeType b \<noteq> Arbiter \<and> NodeType b \<noteq> Router \<and>
        (NodeType b \<noteq> ReplsetPrimary \<or> NodeType a = ReplsetPrimary) \<longrightarrow>
           NodeName a \<le> NodeName b)"
proof -
  let ?ms = "ByReplicaset registry rs"
  have mem: "b \<in> set ?ms \<longleftrightarrow> b \<in> set registry \<and> ReplicasetName b = rs" for b
    by (simp add: ByReplicaset_def)
  note s = selectSource_sound [OF assms]
  from s have a: "a \<in> set ?ms" and r: "canServeReads a"
    by blast+
  from s have p: "NodeType a = ReplsetPrimary \<Longrightarrow> b \<in> set ?ms \<Longrightarrow> canServeReads b \<Longrightarrow>
      NodeType b = ReplsetPrimary" for b
    by blast
  from s have n: "b \<in> set ?ms \<Longrightarrow> canServeReads b \<Longrightarrow>
      NodeType b \<noteq> ReplsetPrimary \<or> NodeType a = ReplsetPrimary \<Longrightarrow> NodeName a \<le> NodeName b" for b
    by blast
  show ?thesis
  proof (intro conjI impI ballI)
    from r show "NodeType a \<noteq> Arbiter" and "NodeType a \<noteq> Router"
      by (simp_all add: canServeReads_def)
    from a mem show "a \<in> set registry" and "ReplicasetName a = rs"
      by blast+
  next
    fix b
    assume "NodeType a = ReplsetPrimary" and "b \<in> set registry"
      and "ReplicasetName b = rs \<and> NodeType b \<noteq> Arbiter \<and> NodeType b \<noteq> Router"
    then show "NodeType b = ReplsetPrimary"
      using p [of b] mem [of b] by (simp add: canServeReads_def)
  next
    fix b
    assume "b \<in> set registry"
      and "ReplicasetName b = rs \<and> NodeType b \<noteq> Arbiter \<and> NodeType b \<noteq> Router \<and>
        (NodeType b \<noteq> ReplsetPrimary \<or> NodeType a = ReplsetPrimary)"
    then show "NodeName a \<le> NodeName b"
      using n [of b] mem [of b] by (simp add: canServeReads_def)
  qed
qed

lemma test_select: "fst (SelectSources testTopology testRegistry) =
   [(''rs1'', agent ''127.0.0.1:17002'' ReplsetSecondary ''rs1''),
    (''rs2'', agent ''127.0.0.1:17004'' ReplsetPrimary ''rs2'')]"
  by code_simp

text \<open>
  C4. The map of \<open>SelectSources\<close> has one entry per replica set at most. The agent
  chosen for a replica set is a connected member of it and is neither an arbiter nor a
  router; it is the primary only if every member that can serve reads is the primary;
  and its \<open>NodeName\<close> is the smallest among the members it was preferred with (the
  members that are not the primary, or all of them when the primary is chosen).
\<close>

theorem SelectSources_policy:
  "distinct (map fst (fst (SelectSources topology registry))) \<and>
   ((rs, a) \<in> set (fst (SelectSources topology registry)) \<longrightarrow>
     NodeType a \<noteq> Arbiter \<and> NodeType a \<noteq> Router \<and>
     a \<in> set registry \<and> ReplicasetName a = rs \<and>
     (NodeType a = ReplsetPrimary \<longrightarrow>
        (\<forall>b\<in>set registry. ReplicasetName b = rs \<and> NodeType b \<noteq> Arbiter \<and> NodeType b \<noteq> Router \<longrightarrow>
           NodeType b = ReplsetPrimary)) \<and>
     (\<forall>b\<in>set registry. ReplicasetName b = rs \<and> NodeType b \<noteq> Arbiter \<and> NodeType b \<noteq> Router \<and>
        (NodeType b \<noteq> ReplsetPrimary \<or> NodeType a = ReplsetPrimary) \<longrightarrow>
           NodeName a \<le> NodeName b))"
proof (rule conjI)
  show "distinct (map fst (fst (SelectSources topology registry)))"
    by (simp add: SelectSources_def selectEach_distinct)
next
  show "(rs, a) \<in> set (fst (SelectSources topology registry)) \<longrightarrow>
     NodeType a \<noteq> Arbiter \<and> NodeType a \<noteq> Router \<and>
     a \<in> set registry \<and> ReplicasetName a = rs \<and>
     (NodeType a = ReplsetPrimary \<longrightarrow>
        (\<forall>b\<in>set registry. ReplicasetName b = rs \<and> NodeType b \<noteq> Arbiter \<and> NodeType b \<noteq> Router \<longrightarrow>
           NodeType b = ReplsetPrimary)) \<and>
     (\<forall>b\<in>set registry. ReplicasetName b = rs \<and> NodeType b \<noteq> Arbiter \<and> NodeType b \<noteq> Router \<and>
        (NodeType b \<noteq> ReplsetPrimary \<or> NodeType a = ReplsetPrimary) \<longrightarrow>
           NodeName a \<le> NodeName b)"
  proof
    assume "(rs, a) \<in> set (fst (SelectSources topology registry))"
    then have "selectSource (ByReplicaset registry rs) = Some a"
      unfolding SelectSources_def by (rule selectEach_sound [THEN conjunct2])
    then show "NodeType a \<noteq> Arbiter \<and> NodeType a \<noteq> Router \<and>
     a \<in> set registry \<and> ReplicasetName a = rs \<and>
     (NodeType a = ReplsetPrimary \<longrightarrow>
        (\<forall>b\<in>set registry. ReplicasetName b = rs \<and> NodeType b \<noteq> Arbiter \<and> NodeType b \<noteq> Router \<longrightarrow>
           NodeType b = ReplsetPrimary)) \<and>
     (\<forall>b\<in>set registry. ReplicasetName b = rs \<and> NodeType b \<noteq> Arbiter \<and> NodeType b \<noteq> Router \<and>
        (NodeType b \<noteq> ReplsetPrimary \<or> NodeType a = ReplsetPrimary) \<longrightarrow>
           NodeName a \<le> NodeName b)"
      by (rule selectSource_registry)
  qed
qed

theorem SelectSources_policy_witness:
  "(''rs1'', agent ''127.0.0.1:17002'' ReplsetSecondary ''rs1'')
      \<in> set (fst (SelectSources testTopology testRegistry)) \<and>
   NodeType (agent ''127.0.0.1:17002'' ReplsetSecondary ''rs1'') \<noteq> Arbiter \<and>
   NodeType (agent ''127.0.0.1:17002'' ReplsetSecondary ''rs1'') \<noteq> Router \<and>
   agent ''127.0.0.1:17003'' ReplsetSecondary ''rs1'' \<in> set testRegistry \<and>
   NodeName (agent ''127.0.0.1:17002'' ReplsetSecondary ''rs1'')
     \<le> NodeName (agent ''127.0.0.1:17003'' ReplsetSecondary ''rs1'') \<and>
   (''rs2'', agent ''127.0.0.1:17004'' ReplsetPrimary ''rs2'')
      \<in> set (fst (SelectSources testTopology testRegistry)) \<and>
   NodeType (agent ''127.0.0.1:17004'' ReplsetPrimary ''rs2'') = ReplsetPrimary \<and>
   agent ''127.0.0.1:17004'' ReplsetPrimary ''rs2'' \<in> set testRegistry \<and>
   agent ''127.0.0.1:17005'' Arbiter ''rs2'' \<in> set testRegistry \<and>
   NodeName (agent ''127.0.0.1:17004'' ReplsetPrimary ''rs2'')
     \<le> NodeName (agent ''127.0.0.1:17004'' ReplsetPrimary ''rs2'')"
proof -
  let ?a = "agent ''127.0.0.1:17002'' ReplsetSecondary ''rs1''"
  let ?b = "agent ''127.0.0.1:17003'' ReplsetSecondary ''rs1''"
  let ?p = "agent ''127.0.0.1:17004'' ReplsetPrimary ''rs2''"
  have chosen: "(''rs1'', ?a) \<in> set (fst (SelectSources testTopology testRegistry))"
    by (simp add: test_select)
  have b: "?b \<in> set testRegistry"
    by (simp add: testRegistry_def)
  have other: "ReplicasetName ?b = ''rs1'' \<and> NodeType ?b \<noteq> Arbiter \<and> NodeType ?b \<noteq> Router \<and>
      (NodeType ?b \<noteq> ReplsetPrimary \<or> NodeType ?a = ReplsetPrimary)"
    by (simp add: agent_def)
  note inst = SelectSources_policy [of testTopology testRegistry "''rs1''" ?a,
      THEN conjunct2, THEN mp, OF chosen]
  note c1 = inst [THEN conjunct1]
  note c2 = inst [THEN conjunct2, THEN conjunct1]
  note c6 = inst [THEN conjunct2, THEN conjunct2, THEN conjunct2, THEN conjunct2,
      THEN conjunct2, THEN bspec, OF b, THEN mp, OF other]
  have fallback: "(''rs2'', ?p) \<in> set (fst (SelectSources testTopology testRegistry))"
    by (simp add: test_select)
  have primary: "NodeType ?p = ReplsetPrimary"
    by (simp add: agent_def)
  have p: "?p \<in> set testRegistry"
    by (simp add: testRegistry_def)
  have arbiter: "agent ''127.0.0.1:17005'' Arbiter ''rs2'' \<in> set testRegistry"
    by (simp add: testRegistry_def)
  have member: "ReplicasetName ?p = ''rs2'' \<and> NodeType ?p \<noteq> Arbiter \<and> NodeType ?p \<noteq> Router"
    by (simp add: agent_def)
  have same: "ReplicasetName ?p = ''rs2'' \<and> NodeType ?p \<noteq> Arbiter \<and> NodeType ?p \<noteq> Router \<and>
      (NodeType ?p \<noteq> ReplsetPrimary \<or> NodeType ?p = ReplsetPrimary)"
    by (simp add: agent_def)
  note inst2 = SelectSources_policy [of testTopology testRegistry "''rs2''" ?p,
      THEN conjunct2, THEN mp, OF fallback]
  note d5 = inst2 [THEN conjunct2, THEN conjunct2, THEN conjunct2, THEN conjunct2,
      THEN conjunct1, THEN mp, OF primary, THEN bspec, OF p, THEN mp, OF member]
  note d6 = inst2 [THEN conjunct2, THEN conjunct2, THEN conjunct2, THEN conjunct2,
      THEN conjunct2, THEN bspec, OF p, THEN mp, OF same]
  show ?thesis
    by (intro conjI chosen c1 c2 b c6 fallback d5 p arbiter d6)
qed

section \<open>Claim about the orchestrator\<close>

lemma oneAtATime_idle: "oneAtATime idleOrchestrator"
  by (simp add: oneAtATime_def idleOrchestrator_def)

lemma oneAtATime_step: "oneAtATime orch \<Longrightarrow> oneAtATime (step orch e)"
proof (cases e)
  case (RequestBackup request)
  assume "oneAtATime orch"
  with RequestBackup show ?thesis
    by (cases "state orch") (simp_all add: oneAtATime_def StartBackup_def)
next
  case (Election topology registry)
  assume "oneAtATime orch"
  with Election show ?thesis
    by (cases "state orch") (simp_all add: oneAtATime_def elect_def split: list.splits)
next
  case (Dispatched accepts)
  assume "oneAtATime orch"
  with Dispatched show ?thesis
    by (cases "state orch") (simp_all add: oneAtATime_def dispatch_def)
next
  case (Completion rs ok)
  assume "oneAtATime orch"
  with Completion show ?thesis
    by (cases "state orch") (simp_all add: oneAtATime_def completionSignal_def)
next
  case DumpDone
  assume "oneAtATime orch"
  with DumpDone show ?thesis
    by (cases "state orch") (simp_all add: oneAtATime_def dumpFinished_def)
next
  case StopTail
  assume "oneAtATime orch"
  with StopTail show ?thesis
    by (cases "state orch") (simp_all add: oneAtATime_def StopOplogTail_def)
next
  case TailStopped
  assume "oneAtATime orch"
  with TailStopped show ?thesis
    by (cases "state orch") (simp_all add: oneAtATime_def oplogFinished_def)
next
  case Failure
  assume "oneAtATime orch"
  with Failure show ?thesis
    by (cases "state orch") (simp_all add: oneAtATime_def fail_def)
next
  case Reset
  assume "oneAtATime orch"
  with Reset show ?thesis
    by (cases "state orch") (simp_all add: oneAtATime_def reset_def idleOrchestrator_def)
qed

lemma run_snoc: "run (events @ [e]) = step (run events) e"
  by (simp add: run_def)

lemma oneAtATime_run: "oneAtATime (run events)"
proof (induction events rule: rev_induct)
  case Nil
  show ?case by (simp add: run_def oneAtATime_idle)
next
  case (snoc e events)
  then show ?case by (simp add: run_snoc oneAtATime_step)
qed

lemma run_test: "run testEvents =
   \<lparr>state = Running, inFlight = [testRequest 1],
    sources = [(''rs1'', agent ''127.0.0.1:17002'' ReplsetSecondary ''rs1''),
               (''rs2'', agent ''127.0.0.1:17004'' ReplsetPrimary ''rs2'')],
    outstanding = [''rs1'', ''rs2''], failed = []\<rparr>"
  by (simp add: run_def testEvents_def StartBackup_def idleOrchestrator_def elect_def
      dispatch_def test_select)

text \<open>
  C7. In every state but \<open>Idle\<close>, \<open>StartBackup\<close> returns the \<open>BusyError\<close> and the
  orchestrator as it was: the request is not kept and the backup in flight is untouched.
  After any sequence of events at most one backup is in flight, and exactly one in the
  states \<open>Electing\<close>, \<open>Dispatching\<close>, \<open>Running\<close> and \<open>OplogOnly\<close>.
\<close>

theorem StartBackup_busy:
  "(state orch \<noteq> Idle \<longrightarrow> StartBackup request orch = (Some BusyError, orch)) \<and>
   (state (run events) \<noteq> Idle \<longrightarrow> run (events @ [RequestBackup request]) = run events) \<and>
   length (inFlight (run events)) \<le> 1 \<and>
   (state (run events) \<in> {Electing, Dispatching, Running, OplogOnly} \<longrightarrow>
      length (inFlight (run events)) = 1)"
proof (intro conjI impI)
  assume "state orch \<noteq> Idle"
  then show "StartBackup request orch = (Some BusyError, orch)"
    by (simp add: StartBackup_def)
next
  assume "state (run events) \<noteq> Idle"
  then show "run (events @ [RequestBackup request]) = run events"
    by (simp add: run_snoc StartBackup_def)
next
  have inv: "oneAtATime (run events)"
    by (rule oneAtATime_run)
  then show "length (inFlight (run events)) \<le> 1"
    by (simp add: oneAtATime_def split: if_splits)
  assume "state (run events) \<in> {Electing, Dispatching, Running, OplogOnly}"
  with inv show "length (inFlight (run events)) = 1"
    by (auto simp: oneAtATime_def split: if_splits)
qed

theorem StartBackup_busy_witness:
  "state (run testEvents) = Running \<and> state (run testEvents) \<noteq> Idle \<and>
   StartBackup (testRequest 2) (run testEvents) = (Some BusyError, run testEvents) \<and>
   run (testEvents @ [RequestBackup (testRequest 2)]) = run testEvents \<and>
   state (run testEvents) \<in> {Electing, Dispatching, Running, OplogOnly} \<and>
   inFlight (run testEvents) = [testRequest 1] \<and>
   length (inFlight (run testEvents)) = 1"
proof -
  have st: "state (run testEvents) = Running"
    by (simp add: run_test)
  then have busy: "state (run testEvents) \<noteq> Idle"
    by simp
  from st have fl: "state (run testEvents) \<in> {Electing, Dispatching, Running, OplogOnly}"
    by simp
  have req: "inFlight (run testEvents) = [testRequest 1]"
    by (simp add: run_test)
  note inst = StartBackup_busy [where orch = "run testEvents" and request = "testRequest 2"
      and events = testEvents]
  note c1 = inst [THEN conjunct1, THEN mp, OF busy]
  note c2 = inst [THEN conjunct2, THEN conjunct1, THEN mp, OF busy]
  note c4 = inst [THEN conjunct2, THEN conjunct2, THEN conjunct2, THEN mp, OF fl]
  show ?thesis
    by (intro conjI st busy c1 c2 fl req c4)
qed

end
